theory Spec2Isabelle
  imports Complex_Main
begin


section \<open>Idealised numpy arithmetic\<close>

text \<open>
  The evaluator \<^verbatim>\<open>compute_costs\<close> of \<^verbatim>\<open>cost_model.py\<close> works on numpy
  arrays of 64-bit floats. An array element is modelled as a \<open>real option\<close>:
  \<open>Some x\<close> is the number \<open>x\<close>, computed in exact real arithmetic (rounding
  and overflow are abstracted away), and \<open>None\<close> is NaN. Arithmetic on
  elements propagates NaN, as IEEE arithmetic does. An array is a list, and
  an elementwise numpy operation is a \<open>map\<close> over it.
\<close>

type_synonym npfloat = "real option"

datatype error = ValueError

definition np_sqrt :: "real \<Rightarrow> npfloat" where
  \<comment> \<open>\<^verbatim>\<open>np.sqrt\<close>: NaN (with a RuntimeWarning, not an exception) below zero.\<close>
  "np_sqrt x = (if x < 0 then None else Some (sqrt x))"

definition lift2 :: "(real \<Rightarrow> real \<Rightarrow> real) \<Rightarrow> npfloat \<Rightarrow> npfloat \<Rightarrow> npfloat" where
  \<comment> \<open>a binary operation on two elements, NaN if either operand is NaN\<close>
  "lift2 f x y = (case x of None \<Rightarrow> None | Some u \<Rightarrow> map_option (f u) y)"

definition np_linspace :: "real \<Rightarrow> real \<Rightarrow> nat \<Rightarrow> real list" where
  \<comment> \<open>\<^verbatim>\<open>np.linspace(start, stop, num)\<close> with the default \<^verbatim>\<open>endpoint=True\<close>:
      \<^verbatim>\<open>arange(num) * step + start\<close>, the last element then set to \<^verbatim>\<open>stop\<close>.\<close>
  "np_linspace start stop num =
     (if num = 0 then []
      else if num = 1 then [start]
      else (map (\<lambda>i. real i * ((stop - start) / real (num - 1)) + start) [0..<num])
             [num - 1 := stop])"

fun argmin_scan :: "npfloat list \<Rightarrow> nat \<Rightarrow> real \<Rightarrow> nat \<Rightarrow> nat" where
  \<comment> \<open>the scan of numpy's argmin from position \<open>i\<close>, with the least value \<open>mp\<close>
      seen so far at index \<open>mi\<close>; the scan stops at the first NaN\<close>
  "argmin_scan [] i mp mi = mi"
| "argmin_scan (None # xs) i mp mi = i"
| "argmin_scan (Some x # xs) i mp mi =
     (if \<not> (x \<ge> mp) then argmin_scan xs (i + 1) x i else argmin_scan xs (i + 1) mp mi)"

definition np_argmin :: "npfloat list \<Rightarrow> error + nat" where
  \<comment> \<open>\<^verbatim>\<open>np.argmin\<close>: the first index of the least element; a NaN counts as least;
      an empty array raises ValueError\<close>
  "np_argmin xs =
     (case xs of
        [] \<Rightarrow> Inl ValueError
      | None # _ \<Rightarrow> Inr 0
      | Some x # ys \<Rightarrow> Inr (argmin_scan ys 1 x 0))"

definition np_round :: "real \<Rightarrow> real" where
  \<comment> \<open>\<^verbatim>\<open>np.round\<close> to zero decimals: to the nearest integer, a half to the even one\<close>
  "np_round x =
     (let f = \<lfloor>x\<rfloor>; r = x - of_int f
      in if r < 1 / 2 then of_int f
         else if 1 / 2 < r then of_int (f + 1)
         else if even f then of_int f else of_int (f + 1))"

definition py_int :: "npfloat \<Rightarrow> error + int" where
  \<comment> \<open>\<^verbatim>\<open>int(x)\<close> on a float: truncation towards zero;
      \<^verbatim>\<open>ValueError: cannot convert float NaN to integer\<close> on NaN\<close>
  "py_int x =
     (case x of
        None \<Rightarrow> Inl ValueError
      | Some v \<Rightarrow> Inr (if 0 \<le> v then \<lfloor>v\<rfloor> else \<lceil>v\<rceil>))"


section \<open>The cost model\<close>

text \<open>
  The dictionary returned by \<^verbatim>\<open>compute_costs\<close>, with its keys as fields.
\<close>

record cost_curve =
  D :: "real list"
  na :: "npfloat list"
  cost_ant :: "npfloat list"
  cost_rcv :: "npfloat list"
  cost_corr :: "npfloat list"
  total_cost :: "npfloat list"
  D_opt :: real
  C_min :: npfloat
  new_antennae :: int

definition D_12m :: real where
  \<comment> \<open>current antenna size in m\<close>
  "D_12m = 12"

definition n_12m :: real where
  \<comment> \<open>current number of antennas\<close>
  "n_12m = 50"

text \<open>
  Lines 28 to 38, at one element \<open>d\<close> of the array of diameters. The
  divisor \<open>a\<close> is positive at every sampled diameter (lemma \<open>grid_bounds\<close>
  below), so the division never meets zero.
\<close>

definition disc_integrate :: "real \<Rightarrow> real \<Rightarrow> real" where
  \<comment> \<open>the argument \<^verbatim>\<open>b**2-4*a*c\<close> of \<^verbatim>\<open>np.sqrt\<close> on line 38\<close>
  "disc_integrate SNR d =
     (let A_new = pi * d\<^sup>2 / 4;
          A_old = pi * D_12m\<^sup>2 / 4;
          a = A_new\<^sup>2;
          b = 2 * n_12m * A_old * A_new - A_new\<^sup>2;
          N = n_12m * (n_12m - 1);
          c = (1 - SNR\<^sup>2 * (1 - 0.3)\<^sup>2) * N * A_old\<^sup>2
      in b\<^sup>2 - 4 * a * c)"

definition n2_integrate :: "real \<Rightarrow> real \<Rightarrow> npfloat" where
  "n2_integrate SNR d =
     (let A_new = pi * d\<^sup>2 / 4;
          A_old = pi * D_12m\<^sup>2 / 4;
          a = A_new\<^sup>2;
          b = 2 * n_12m * A_old * A_new - A_new\<^sup>2;
          N = n_12m * (n_12m - 1);
          c = (1 - SNR\<^sup>2 * (1 - 0.3)\<^sup>2) * N * A_old\<^sup>2
      in map_option (\<lambda>s. (- b + s) / 2 / a) (np_sqrt (b\<^sup>2 - 4 * a * c)))"

text \<open>Lines 46 and 47, at one element \<open>d\<close>.\<close>

definition disc_standalone :: "real \<Rightarrow> real \<Rightarrow> real" where
  \<comment> \<open>the argument \<^verbatim>\<open>1+4*c\<close> of \<^verbatim>\<open>np.sqrt\<close> on line 47\<close>
  "disc_standalone SNR d =
     (let c = 2 * SNR\<^sup>2 * (D_12m\<^sup>2 / d\<^sup>2)\<^sup>2 * (1 - 0.3)\<^sup>2 * (n_12m * (n_12m - 1) / 2)
      in 1 + 4 * c)"

definition n2_standalone :: "real \<Rightarrow> real \<Rightarrow> npfloat" where
  "n2_standalone SNR d =
     (let c = 2 * SNR\<^sup>2 * (D_12m\<^sup>2 / d\<^sup>2)\<^sup>2 * (1 - 0.3)\<^sup>2 * (n_12m * (n_12m - 1) / 2)
      in map_option (\<lambda>s. (1 + s) / 2) (np_sqrt (1 + 4 * c)))"

text \<open>Lines 42 and 52, at one element \<open>n\<close> of \<^verbatim>\<open>n2\<close>.\<close>

definition cost_corr_integrate :: "real \<Rightarrow> npfloat \<Rightarrow> npfloat" where
  "cost_corr_integrate f3 n = map_option (\<lambda>n. f3 * (n + n_12m)\<^sup>2) n"

definition cost_corr_standalone :: "real \<Rightarrow> npfloat \<Rightarrow> npfloat" where
  "cost_corr_standalone f3 n = map_option (\<lambda>n. f3 * n\<^sup>2) n"

text \<open>
  The evaluator. The argument \<^verbatim>\<open>integrate\<close> is used for its truth value only
  (the callers pass a list or a length); it is a \<open>bool\<close> here. The base
  \<^verbatim>\<open>D / D_12m\<close> of the power is positive at every sampled diameter, where
  numpy's float power is \<open>powr\<close>.
\<close>

definition compute_costs ::
  "real \<Rightarrow> real \<Rightarrow> real \<Rightarrow> real \<Rightarrow> real \<Rightarrow> bool \<Rightarrow> real \<Rightarrow> error + cost_curve" where
  "compute_costs C f1 f2 f3 SNR integrate alpha =
     (let Ds = np_linspace 6 50 300;
          n2 = (if integrate then map (n2_integrate SNR) Ds
                else map (n2_standalone SNR) Ds);
          ant = map2 (\<lambda>n d. map_option (\<lambda>n. f1 * n * (d / D_12m) powr alpha) n) n2 Ds;
          rcv = map (map_option (\<lambda>n. f2 * n)) n2;
          corr = (if integrate then map (cost_corr_integrate f3) n2
                  else map (cost_corr_standalone f3) n2);
          total = map2 (lift2 (+))
                    (map2 (lift2 (+)) (map (map_option (\<lambda>x. C + x)) ant) rcv) corr
      in case np_argmin total of
           Inl e \<Rightarrow> Inl e
         | Inr min_index \<Rightarrow>
             (case py_int (map_option np_round (n2 ! min_index)) of
                Inl e \<Rightarrow> Inl e
              | Inr k \<Rightarrow>
                  Inr \<lparr> D = Ds, na = n2, cost_ant = ant, cost_rcv = rcv,
                        cost_corr = corr, total_cost = total,
                        D_opt = Ds ! min_index, C_min = total ! min_index,
                        new_antennae = k \<rparr>))"


section \<open>The specification's formulas\<close>

text \<open>
  The antenna counts as the specification words them (section 4.1, step 2),
  to be compared with the evaluator's: \<open>D_existing = 12\<close>,
  \<open>n_existing = 50\<close>, \<open>N0 = 50 * 49\<close>, \<open>efficiency_loss = 0.7\<close>.
\<close>

definition spec_A_new :: "real \<Rightarrow> real" where
  "spec_A_new d = pi * d\<^sup>2 / 4"

definition spec_A_old :: real where
  "spec_A_old = pi * 12\<^sup>2 / 4"

definition spec_a :: "real \<Rightarrow> real" where
  "spec_a d = (spec_A_new d)\<^sup>2"

definition spec_b :: "real \<Rightarrow> real" where
  "spec_b d = 2 * 50 * spec_A_old * spec_A_new d - (spec_A_new d)\<^sup>2"

definition spec_c :: "real \<Rightarrow> real" where
  "spec_c sensitivity_gain = (1 - sensitivity_gain\<^sup>2 * 0.7\<^sup>2) * (50 * 49) * spec_A_old\<^sup>2"

definition spec_n_integrated :: "real \<Rightarrow> real \<Rightarrow> real" where
  "spec_n_integrated sensitivity_gain d =
     (- spec_b d + sqrt ((spec_b d)\<^sup>2 - 4 * spec_a d * spec_c sensitivity_gain))
       / (2 * spec_a d)"

definition spec_c_standalone :: "real \<Rightarrow> real \<Rightarrow> real" where
  "spec_c_standalone sensitivity_gain d =
     2 * sensitivity_gain\<^sup>2 * (12\<^sup>2 / d\<^sup>2)\<^sup>2 * 0.7\<^sup>2 * (50 * (50 - 1) / 2)"

definition spec_n_standalone :: "real \<Rightarrow> real \<Rightarrow> real" where
  "spec_n_standalone sensitivity_gain d =
     (1 + sqrt (1 + 4 * spec_c_standalone sensitivity_gain d)) / 2"


section \<open>The sampling grid and the minimum search\<close>

lemma grid_length: "length (np_linspace 6 50 300) = 300"
  by (simp add: np_linspace_def)

lemma grid_nth: "i < 300 \<Longrightarrow> np_linspace 6 50 300 ! i = 6 + real i * 44 / 299"
  by (cases "i = 299") (simp_all add: np_linspace_def nth_list_update)

lemma grid_bounds:
  assumes "i < 300"
  shows "6 \<le> np_linspace 6 50 300 ! i" and "np_linspace 6 50 300 ! i \<le> 50"
proof -
  have "real i \<le> 299" using assms by simp
  then show "6 \<le> np_linspace 6 50 300 ! i" and "np_linspace 6 50 300 ! i \<le> 50"
    using assms by (simp_all add: grid_nth)
qed

lemma argmin_scan_bound: "mi < i \<Longrightarrow> argmin_scan xs i mp mi < i + length xs"
  by (induction xs i mp mi rule: argmin_scan.induct) (auto split: if_splits)

lemma argmin_scan_nan:
  "None \<in> set xs \<Longrightarrow>
     i \<le> argmin_scan xs i mp mi \<and> xs ! (argmin_scan xs i mp mi - i) = None"
proof (induction xs i mp mi rule: argmin_scan.induct)
  case (1 i mp mi)
  then show ?case by simp
next
  case (2 xs i mp mi)
  then show ?case by simp
next
  case (3 x xs i mp mi)
  then have mem: "None \<in> set xs" by simp
  show ?case
  proof (cases "\<not> (x \<ge> mp)")
    case True
    with 3 mem have "i + 1 \<le> argmin_scan xs (i + 1) x i \<and>
        xs ! (argmin_scan xs (i + 1) x i - (i + 1)) = None" by blast
    moreover from this have "argmin_scan xs (i + 1) x i - i - 1 = argmin_scan xs (i + 1) x i - (i + 1)"
      by simp
    ultimately show ?thesis using True by (simp add: nth_Cons')
  next
    case False
    with 3 mem have "i + 1 \<le> argmin_scan xs (i + 1) mp mi \<and>
        xs ! (argmin_scan xs (i + 1) mp mi - (i + 1)) = None" by blast
    moreover from this have "argmin_scan xs (i + 1) mp mi - i - 1 = argmin_scan xs (i + 1) mp mi - (i + 1)"
      by simp
    ultimately show ?thesis using False by (simp add: nth_Cons')
  qed
qed

lemma np_argmin_in_range:
  "xs \<noteq> [] \<Longrightarrow> \<exists>j. np_argmin xs = Inr j \<and> j < length xs"
proof (cases xs)
  case Nil
  assume "xs \<noteq> []" with Nil show ?thesis by simp
next
  case (Cons y ys)
  show ?thesis
  proof (cases y)
    case None
    with Cons show ?thesis by (simp add: np_argmin_def)
  next
    case (Some v)
    have "argmin_scan ys 1 v 0 < 1 + length ys" by (rule argmin_scan_bound) simp
    with Cons Some show ?thesis by (simp add: np_argmin_def)
  qed
qed

lemma np_argmin_nan:
  assumes "None \<in> set xs" and "np_argmin xs = Inr j"
  shows "xs ! j = None"
proof (cases xs)
  case Nil
  with assms show ?thesis by simp
next
  case (Cons y ys)
  show ?thesis
  proof (cases y)
    case None
    with Cons assms show ?thesis by (simp add: np_argmin_def)
  next
    case (Some v)
    with Cons assms have mem: "None \<in> set ys" by simp
    from Cons Some assms have j: "j = argmin_scan ys 1 v 0" by (simp add: np_argmin_def)
    from argmin_scan_nan [OF mem, of 1 v 0] j
    have "1 \<le> j" and "ys ! (j - 1) = None" by simp_all
    with Cons show ?thesis by (simp add: nth_Cons')
  qed
qed

lemma lift2_eq_None: "lift2 f x y = None \<longleftrightarrow> x = None \<or> y = None"
  by (cases x; cases y) (simp_all add: lift2_def)

lemma lift2_Some: "lift2 f (Some u) (Some v) = Some (f u v)"
  by (simp add: lift2_def)

lemma py_int_eq_Inr: "py_int x = Inr k \<Longrightarrow> x \<noteq> None"
  by (cases x) (simp_all add: py_int_def)

lemma py_int_None: "py_int None = Inl ValueError"
  by (simp add: py_int_def)

lemma py_int_Some: "\<exists>k. py_int (Some v) = Inr k"
  by (simp add: py_int_def)

lemma compute_costs_unfold:
  obtains n2 ant rcv corr total where
    "length n2 = 300" and "length total = 300"
    and "\<And>i. i < 300 \<Longrightarrow> n2 ! i =
           (if integ then n2_integrate SNR (np_linspace 6 50 300 ! i)
            else n2_standalone SNR (np_linspace 6 50 300 ! i))"
    and "\<And>i. i < 300 \<Longrightarrow> ant ! i =
           map_option (\<lambda>n. f1 * n * (np_linspace 6 50 300 ! i / D_12m) powr alpha) (n2 ! i)"
    and "\<And>i. i < 300 \<Longrightarrow> rcv ! i = map_option (\<lambda>n. f2 * n) (n2 ! i)"
    and "\<And>i. i < 300 \<Longrightarrow> corr ! i =
           (if integ then cost_corr_integrate f3 (n2 ! i)
            else cost_corr_standalone f3 (n2 ! i))"
    and "\<And>i. i < 300 \<Longrightarrow> total ! i =
           lift2 (+) (lift2 (+) (map_option (\<lambda>x. C + x) (ant ! i)) (rcv ! i)) (corr ! i)"
    and "compute_costs C f1 f2 f3 SNR integ alpha =
           (case np_argmin total of
              Inl e \<Rightarrow> Inl e
            | Inr min_index \<Rightarrow>
                (case py_int (map_option np_round (n2 ! min_index)) of
                   Inl e \<Rightarrow> Inl e
                 | Inr k \<Rightarrow>
                     Inr \<lparr> D = np_linspace 6 50 300, na = n2, cost_ant = ant, cost_rcv = rcv,
                           cost_corr = corr, total_cost = total,
                           D_opt = np_linspace 6 50 300 ! min_index,
                           C_min = total ! min_index, new_antennae = k \<rparr>))"
proof -
  define Ds where "Ds = np_linspace 6 50 300"
  define n2 where "n2 = (if integ then map (n2_integrate SNR) Ds
                else map (n2_standalone SNR) Ds)"
  define ant where "ant = map2 (\<lambda>n d. map_option (\<lambda>n. f1 * n * (d / D_12m) powr alpha) n) n2 Ds"
  define rcv where "rcv = map (map_option (\<lambda>n. f2 * n)) n2"
  define corr where "corr = (if integ then map (cost_corr_integrate f3) n2
                  else map (cost_corr_standalone f3) n2)"
  define total where "total = map2 (lift2 (+))
                    (map2 (lift2 (+)) (map (map_option (\<lambda>x. C + x)) ant) rcv) corr"
  have lD: "length Ds = 300" by (simp add: Ds_def grid_length)
  have l2: "length n2 = 300" by (simp add: n2_def lD)
  have la: "length ant = 300" by (simp add: ant_def lD l2)
  have lr: "length rcv = 300" by (simp add: rcv_def l2)
  have lc: "length corr = 300" by (simp add: corr_def l2)
  have lt: "length total = 300" by (simp add: total_def la lr lc)
  have e2: "n2 ! i = (if integ then n2_integrate SNR (Ds ! i) else n2_standalone SNR (Ds ! i))"
    if "i < 300" for i using that by (simp add: n2_def lD)
  have ea: "ant ! i = map_option (\<lambda>n. f1 * n * (Ds ! i / D_12m) powr alpha) (n2 ! i)"
    if "i < 300" for i using that by (simp add: ant_def lD l2)
  have er: "rcv ! i = map_option (\<lambda>n. f2 * n) (n2 ! i)"
    if "i < 300" for i using that by (simp add: rcv_def l2)
  have ec: "corr ! i = (if integ then cost_corr_integrate f3 (n2 ! i)
            else cost_corr_standalone f3 (n2 ! i))"
    if "i < 300" for i using that by (simp add: corr_def l2)
  have et: "total ! i = lift2 (+) (lift2 (+) (map_option (\<lambda>x. C + x) (ant ! i)) (rcv ! i)) (corr ! i)"
    if "i < 300" for i using that by (simp add: total_def la lr lc)
  have cc: "compute_costs C f1 f2 f3 SNR integ alpha =
           (case np_argmin total of
              Inl e \<Rightarrow> Inl e
            | Inr min_index \<Rightarrow>
                (case py_int (map_option np_round (n2 ! min_index)) of
                   Inl e \<Rightarrow> Inl e
                 | Inr k \<Rightarrow>
                     Inr \<lparr> D = Ds, na = n2, cost_ant = ant, cost_rcv = rcv,
                           cost_corr = corr, total_cost = total,
                           D_opt = Ds ! min_index,
                           C_min = total ! min_index, new_antennae = k \<rparr>))"
    unfolding compute_costs_def Let_def Ds_def n2_def ant_def rcv_def corr_def total_def ..
  show thesis
    using that [of n2 total ant rcv corr] l2 lt e2 ea er ec et cc unfolding Ds_def by blast
qed


section \<open>What the evaluator returns\<close>

lemma compute_costs_Inr:
  assumes ok: "compute_costs C f1 f2 f3 SNR integ alpha = Inr r" and i: "i < 300"
  shows "\<exists>n. (if integ then n2_integrate SNR (np_linspace 6 50 300 ! i)
              else n2_standalone SNR (np_linspace 6 50 300 ! i)) = Some n
           \<and> D r = np_linspace 6 50 300
           \<and> na r ! i = Some n
           \<and> cost_ant r ! i = Some (f1 * n * (np_linspace 6 50 300 ! i / D_12m) powr alpha)
           \<and> cost_rcv r ! i = Some (f2 * n)
           \<and> cost_corr r ! i = Some (if integ then f3 * (n + n_12m)\<^sup>2 else f3 * n\<^sup>2)
           \<and> total_cost r ! i =
               Some (C + f1 * n * (np_linspace 6 50 300 ! i / D_12m) powr alpha + f2 * n
                     + (if integ then f3 * (n + n_12m)\<^sup>2 else f3 * n\<^sup>2))"
proof -
  obtain n2 ant rcv corr total where
    l2: "length n2 = 300" and lt: "length total = 300"
    and e2: "\<And>i. i < 300 \<Longrightarrow> n2 ! i =
           (if integ then n2_integrate SNR (np_linspace 6 50 300 ! i)
            else n2_standalone SNR (np_linspace 6 50 300 ! i))"
    and ea: "\<And>i. i < 300 \<Longrightarrow> ant ! i =
           map_option (\<lambda>n. f1 * n * (np_linspace 6 50 300 ! i / D_12m) powr alpha) (n2 ! i)"
    and er: "\<And>i. i < 300 \<Longrightarrow> rcv ! i = map_option (\<lambda>n. f2 * n) (n2 ! i)"
    and ec: "\<And>i. i < 300 \<Longrightarrow> corr ! i =
           (if integ then cost_corr_integrate f3 (n2 ! i)
            else cost_corr_standalone f3 (n2 ! i))"
    and et: "\<And>i. i < 300 \<Longrightarrow> total ! i =
           lift2 (+) (lift2 (+) (map_option (\<lambda>x. C + x) (ant ! i)) (rcv ! i)) (corr ! i)"
    and cc: "compute_costs C f1 f2 f3 SNR integ alpha =
           (case np_argmin total of
              Inl e \<Rightarrow> Inl e
            | Inr min_index \<Rightarrow>
                (case py_int (map_option np_round (n2 ! min_index)) of
                   Inl e \<Rightarrow> Inl e
                 | Inr k \<Rightarrow>
                     Inr \<lparr> D = np_linspace 6 50 300, na = n2, cost_ant = ant, cost_rcv = rcv,
                           cost_corr = corr, total_cost = total,
                           D_opt = np_linspace 6 50 300 ! min_index,
                           C_min = total ! min_index, new_antennae = k \<rparr>))"
    by (rule compute_costs_unfold [of integ SNR f1 alpha f2 f3 C]) blast
  from ok cc obtain m k where m: "np_argmin total = Inr m"
    and k: "py_int (map_option np_round (n2 ! m)) = Inr k"
    and r: "r = \<lparr> D = np_linspace 6 50 300, na = n2, cost_ant = ant, cost_rcv = rcv,
                 cost_corr = corr, total_cost = total,
                 D_opt = np_linspace 6 50 300 ! m,
                 C_min = total ! m, new_antennae = k \<rparr>"
    by (auto split: sum.splits)
  from lt have "total \<noteq> []" by auto
  from np_argmin_in_range [OF this] m lt have m300: "m < 300" by simp
  from py_int_eq_Inr [OF k] have n2m: "n2 ! m \<noteq> None" by simp
  have tot_None: "total ! j = None \<longleftrightarrow> n2 ! j = None" if "j < 300" for j
    using that by (simp add: et ea er ec lift2_eq_None cost_corr_integrate_def cost_corr_standalone_def)
  have "n2 ! i \<noteq> None"
  proof
    assume "n2 ! i = None"
    with i have "total ! i = None" by (simp add: tot_None)
    with i lt have "None \<in> set total" by (metis nth_mem)
    from np_argmin_nan [OF this m] have "total ! m = None" .
    with m300 n2m show False by (simp add: tot_None)
  qed
  then obtain n where n: "n2 ! i = Some n" by auto
  from n i have "total ! i = Some (C + f1 * n * (np_linspace 6 50 300 ! i / D_12m) powr alpha + f2 * n
                     + (if integ then f3 * (n + n_12m)\<^sup>2 else f3 * n\<^sup>2))"
    by (simp add: et ea er ec lift2_Some cost_corr_integrate_def cost_corr_standalone_def)
  with n i e2 [OF i] show ?thesis
    by (simp add: r ea er ec cost_corr_integrate_def cost_corr_standalone_def)
qed

lemma compute_costs_Inl:
  assumes i: "i < 300"
    and nan: "(if integ then n2_integrate SNR (np_linspace 6 50 300 ! i)
               else n2_standalone SNR (np_linspace 6 50 300 ! i)) = None"
  shows "compute_costs C f1 f2 f3 SNR integ alpha = Inl ValueError"
proof (cases "compute_costs C f1 f2 f3 SNR integ alpha")
  case (Inl e)
  then show ?thesis by (cases e) simp
next
  case (Inr r)
  from compute_costs_Inr [OF Inr i] nan show ?thesis by auto
qed

lemma compute_costs_returns:
  assumes fin: "\<And>i. i < 300 \<Longrightarrow>
     (if integ then n2_integrate SNR (np_linspace 6 50 300 ! i)
      else n2_standalone SNR (np_linspace 6 50 300 ! i)) \<noteq> None"
  shows "\<exists>r. compute_costs C f1 f2 f3 SNR integ alpha = Inr r"
proof -
  obtain n2 ant rcv corr total where
    l2: "length n2 = 300" and lt: "length total = 300"
    and e2: "\<And>i. i < 300 \<Longrightarrow> n2 ! i =
           (if integ then n2_integrate SNR (np_linspace 6 50 300 ! i)
            else n2_standalone SNR (np_linspace 6 50 300 ! i))"
    and cc: "compute_costs C f1 f2 f3 SNR integ alpha =
           (case np_argmin total of
              Inl e \<Rightarrow> Inl e
            | Inr min_index \<Rightarrow>
                (case py_int (map_option np_round (n2 ! min_index)) of
                   Inl e \<Rightarrow> Inl e
                 | Inr k \<Rightarrow>
                     Inr \<lparr> D = np_linspace 6 50 300, na = n2, cost_ant = ant, cost_rcv = rcv,
                           cost_corr = corr, total_cost = total,
                           D_opt = np_linspace 6 50 300 ! min_index,
                           C_min = total ! min_index, new_antennae = k \<rparr>))"
    by (rule compute_costs_unfold [of integ SNR f1 alpha f2 f3 C]) blast
  from lt have "total \<noteq> []" by auto
  from np_argmin_in_range [OF this] lt obtain m where
    m: "np_argmin total = Inr m" and m300: "m < 300" by auto
  from fin [OF m300] e2 [OF m300] obtain v where "n2 ! m = Some v" by auto
  with py_int_Some [of "np_round v"] obtain k where
    "py_int (map_option np_round (n2 ! m)) = Inr k" by auto
  with m cc show ?thesis by simp
qed


section \<open>The two regimes against the specification's formulas\<close>

lemma disc_integrate_spec:
  "disc_integrate SNR d = (spec_b d)\<^sup>2 - 4 * spec_a d * spec_c SNR"
  by (simp add: disc_integrate_def Let_def D_12m_def n_12m_def spec_a_def spec_b_def
      spec_c_def spec_A_new_def spec_A_old_def)

lemma n2_integrate_spec:
  "n2_integrate SNR d =
     (if disc_integrate SNR d < 0 then None else Some (spec_n_integrated SNR d))"
  by (simp add: n2_integrate_def disc_integrate_def Let_def D_12m_def n_12m_def np_sqrt_def
      spec_n_integrated_def spec_a_def spec_b_def spec_c_def spec_A_new_def spec_A_old_def)

lemma disc_standalone_spec: "disc_standalone SNR d = 1 + 4 * spec_c_standalone SNR d"
  by (simp add: disc_standalone_def Let_def D_12m_def n_12m_def spec_c_standalone_def)

lemma spec_c_standalone_nonneg: "0 \<le> spec_c_standalone SNR d"
  by (simp add: spec_c_standalone_def)

lemma n2_standalone_spec: "n2_standalone SNR d = Some (spec_n_standalone SNR d)"
proof -
  have "0 \<le> spec_c_standalone SNR d" by (rule spec_c_standalone_nonneg)
  then have "\<not> 1 + 4 * spec_c_standalone SNR d < 0" by simp
  then show ?thesis
  unfolding n2_standalone_def Let_def D_12m_def n_12m_def np_sqrt_def
      spec_n_standalone_def spec_c_standalone_def by simp
qed

lemma spec_n_standalone_ge_1: "1 \<le> spec_n_standalone SNR d"
proof -
  have "0 \<le> spec_c_standalone SNR d" by (rule spec_c_standalone_nonneg)
  then have "1 \<le> sqrt (1 + 4 * spec_c_standalone SNR d)" by simp
  then show ?thesis by (simp add: spec_n_standalone_def)
qed

lemma spec_n_standalone_root:
  "(spec_n_standalone SNR d)\<^sup>2 - spec_n_standalone SNR d - spec_c_standalone SNR d = 0"
proof -
  define s where "s = sqrt (1 + 4 * spec_c_standalone SNR d)"
  have "0 \<le> 1 + 4 * spec_c_standalone SNR d"
    using spec_c_standalone_nonneg [of SNR d] by simp
  then have s2: "s\<^sup>2 = 1 + 4 * spec_c_standalone SNR d" by (simp add: s_def)
  have "((1 + s) / 2)\<^sup>2 - (1 + s) / 2 - (s\<^sup>2 - 1) / 4 = 0"
    by (simp add: power2_eq_square field_simps)
  moreover have "(s\<^sup>2 - 1) / 4 = spec_c_standalone SNR d" by (simp add: s2)
  ultimately have "((1 + s) / 2)\<^sup>2 - (1 + s) / 2 - spec_c_standalone SNR d = 0" by simp
  then show ?thesis unfolding spec_n_standalone_def s_def .
qed

lemma spec_A_old_eq: "spec_A_old = 36 * pi"
  by (simp add: spec_A_old_def)

lemma spec_a_pos: "d \<noteq> 0 \<Longrightarrow> 0 < spec_a d"
  by (simp add: spec_a_def spec_A_new_def)

lemma spec_A_new_bounds:
  assumes "6 \<le> d" and "d \<le> 50"
  shows "0 < spec_A_new d" and "spec_A_new d \<le> 625 * pi"
proof -
  from assms have d0: "0 < d" by simp
  then show "0 < spec_A_new d" by (simp add: spec_A_new_def)
  from assms d0 have "d\<^sup>2 \<le> 50\<^sup>2" by (intro power_mono) simp_all
  then have "d\<^sup>2 / 4 \<le> 625" by simp
  then have "pi * (d\<^sup>2 / 4) \<le> pi * 625" by (intro mult_left_mono) simp_all
  then show "spec_A_new d \<le> 625 * pi" by (simp add: spec_A_new_def mult.commute)
qed

lemma spec_b_factor: "spec_b d = spec_A_new d * (100 * spec_A_old - spec_A_new d)"
  by (simp add: spec_b_def power2_eq_square algebra_simps)

lemma spec_b_pos:
  assumes "6 \<le> d" and "d \<le> 50"
  shows "0 < spec_b d"
proof -
  from spec_A_new_bounds [OF assms]
  have A: "0 < spec_A_new d" and "spec_A_new d \<le> 625 * pi" by simp_all
  then have "0 < 100 * spec_A_old - spec_A_new d"
    using pi_gt_zero by (simp add: spec_A_old_eq)
  with A show ?thesis by (simp add: spec_b_factor)
qed

lemma spec_c_nonpos_iff: "spec_c SNR \<le> 0 \<longleftrightarrow> 100 \<le> 49 * SNR\<^sup>2"
proof -
  have "0 < (50 * 49) * spec_A_old\<^sup>2" by (simp add: spec_A_old_eq)
  then have "spec_c SNR \<le> 0 \<longleftrightarrow> 1 - SNR\<^sup>2 * 0.7\<^sup>2 \<le> 0"
    unfolding spec_c_def by (simp add: mult_le_0_iff zero_less_mult_iff)
  also have "\<dots> \<longleftrightarrow> 100 \<le> 49 * SNR\<^sup>2" by (simp add: power2_eq_square field_simps)
  finally show ?thesis .
qed

lemma gain_threshold:
  fixes SNR :: real
  assumes "0 \<le> SNR"
  shows "100 \<le> 49 * SNR\<^sup>2 \<longleftrightarrow> 10 / 7 \<le> SNR"
proof -
  have "100 \<le> 49 * SNR\<^sup>2 \<longleftrightarrow> (10 / 7)\<^sup>2 \<le> SNR\<^sup>2"
    by (simp add: power2_eq_square field_simps)
  also have "\<dots> \<longleftrightarrow> 10 / 7 \<le> SNR"
    using assms by (simp add: power2_le_iff_abs_le abs_le_square_iff [symmetric])
  finally show ?thesis .
qed

lemma disc_integrate_factor:
  "disc_integrate SNR d =
     (spec_A_new d)\<^sup>2 * ((100 * spec_A_old - spec_A_new d)\<^sup>2 - 4 * spec_c SNR)"
  by (simp add: disc_integrate_spec spec_b_factor spec_a_def power2_eq_square algebra_simps)

lemma disc_integrate_nonneg_grid:
  assumes d: "6 \<le> d" "d \<le> 50" and s: "1 \<le> SNR\<^sup>2"
  shows "0 \<le> disc_integrate SNR d"
proof -
  from spec_A_new_bounds [OF d]
  have A: "0 < spec_A_new d" "spec_A_new d \<le> 625 * pi" by simp_all
  have "2975 * pi \<le> 100 * spec_A_old - spec_A_new d"
    using A by (simp add: spec_A_old_eq)
  moreover have "0 \<le> 2975 * pi" by simp
  ultimately have "(2975 * pi)\<^sup>2 \<le> (100 * spec_A_old - spec_A_new d)\<^sup>2"
    by (rule power_mono)
  then have lo: "8850625 * pi\<^sup>2 \<le> (100 * spec_A_old - spec_A_new d)\<^sup>2"
    by (simp add: power_mult_distrib)
  have "1 - SNR\<^sup>2 * 0.7\<^sup>2 \<le> 51 / 100" using s by (simp add: power2_eq_square)
  then have "(1 - SNR\<^sup>2 * 0.7\<^sup>2) * ((50 * 49) * spec_A_old\<^sup>2)
      \<le> 51 / 100 * ((50 * 49) * spec_A_old\<^sup>2)"
    by (intro mult_right_mono) simp_all
  then have "4 * spec_c SNR \<le> 6477408 * pi\<^sup>2"
    by (simp add: spec_c_def spec_A_old_eq power_mult_distrib)
  moreover have "6477408 * pi\<^sup>2 \<le> 8850625 * pi\<^sup>2" by simp
  ultimately have "0 \<le> (100 * spec_A_old - spec_A_new d)\<^sup>2 - 4 * spec_c SNR"
    using lo by linarith
  then show ?thesis by (simp add: disc_integrate_factor)
qed

lemma spec_n_integrated_root:
  assumes d: "d \<noteq> 0" and disc: "0 \<le> disc_integrate SNR d"
  shows "spec_a d * (spec_n_integrated SNR d)\<^sup>2 + spec_b d * spec_n_integrated SNR d
           + spec_c SNR = 0"
proof -
  define a b c where "a = spec_a d" and "b = spec_b d" and "c = spec_c SNR"
  define s where "s = sqrt (b\<^sup>2 - 4 * a * c)"
  have a: "a \<noteq> 0" using spec_a_pos [OF d] by (simp add: a_def)
  from disc have "0 \<le> b\<^sup>2 - 4 * a * c" by (simp add: disc_integrate_spec a_def b_def c_def)
  then have s2: "s\<^sup>2 = b\<^sup>2 - 4 * a * c" by (simp add: s_def)
  have "a * ((- b + s) / (2 * a))\<^sup>2 + b * ((- b + s) / (2 * a)) + c
      = (s\<^sup>2 - b\<^sup>2 + 4 * a * c) / (4 * a)"
    using a by (simp add: power2_eq_square field_simps)
  also have "\<dots> = 0" by (simp add: s2)
  finally show ?thesis
    unfolding spec_n_integrated_def a_def b_def c_def s_def .
qed

lemma spec_n_integrated_sign:
  assumes d: "6 \<le> d" "d \<le> 50" and disc: "0 \<le> disc_integrate SNR d"
  shows "0 \<le> spec_n_integrated SNR d \<longleftrightarrow> spec_c SNR \<le> 0"
proof -
  define a b c where "a = spec_a d" and "b = spec_b d" and "c = spec_c SNR"
  from d have "d \<noteq> 0" by auto
  then have a: "0 < a" using spec_a_pos by (simp add: a_def)
  have b: "0 < b" using spec_b_pos [OF d] by (simp add: b_def)
  from disc have dn: "0 \<le> b\<^sup>2 - 4 * a * c"
    by (simp add: disc_integrate_spec a_def b_def c_def)
  have "0 \<le> (- b + sqrt (b\<^sup>2 - 4 * a * c)) / (2 * a) \<longleftrightarrow> b \<le> sqrt (b\<^sup>2 - 4 * a * c)"
    using a by (simp add: zero_le_divide_iff)
  also have "\<dots> \<longleftrightarrow> sqrt (b\<^sup>2) \<le> sqrt (b\<^sup>2 - 4 * a * c)" using b by simp
  also have "\<dots> \<longleftrightarrow> b\<^sup>2 \<le> b\<^sup>2 - 4 * a * c" by (rule real_sqrt_le_iff)
  also have "\<dots> \<longleftrightarrow> a * c \<le> 0" by simp
  also have "\<dots> \<longleftrightarrow> c \<le> 0" using a by (simp add: mult_le_0_iff)
  finally show ?thesis unfolding spec_n_integrated_def a_def b_def c_def .
qed

lemma disc_integrate_negative: "disc_integrate 0 50 < 0"
proof -
  have "disc_integrate 0 50 = (625 * pi)\<^sup>2 * ((2975 * pi)\<^sup>2 - 4 * (2450 * (36 * pi)\<^sup>2))"
    by (simp add: disc_integrate_factor spec_A_new_def spec_A_old_eq spec_c_def)
  also have "\<dots> = (625 * pi)\<^sup>2 * (- 3850175 * pi\<^sup>2)"
    by (simp add: power_mult_distrib)
  also have "\<dots> < 0" by (simp add: mult_less_0_iff)
  finally show ?thesis .
qed

lemma sqrt_4803_bounds: "69 < sqrt 4803" "sqrt 4803 < 70"
proof -
  have "sqrt (69\<^sup>2) < sqrt 4803" by (subst real_sqrt_less_iff) simp
  then show "69 < sqrt 4803" by simp
  have "sqrt 4803 < sqrt (70\<^sup>2)" by (subst real_sqrt_less_iff) simp
  then show "sqrt 4803 < 70" by simp
qed

lemma spec_n_standalone_1_12: "spec_n_standalone 1 12 = (1 + sqrt 4803) / 2"
  by (simp add: spec_n_standalone_def spec_c_standalone_def power2_eq_square)

lemma spec_n_standalone_1_12_square: "35\<^sup>2 < ((1 + sqrt 4803) / 2)\<^sup>2"
proof -
  have "35 < (1 + sqrt 4803) / 2" using sqrt_4803_bounds by simp
  moreover have "(0::real) \<le> 35" by simp
  ultimately show ?thesis by (rule power_strict_mono) simp
qed


section \<open>When the evaluator returns\<close>

lemma integrate_returns:
  assumes "1 \<le> SNR\<^sup>2"
  shows "\<exists>r. compute_costs C f1 f2 f3 SNR True alpha = Inr r"
proof (rule compute_costs_returns)
  fix i :: nat
  assume i: "i < 300"
  from grid_bounds [OF i] assms
  have "0 \<le> disc_integrate SNR (np_linspace 6 50 300 ! i)"
    by (intro disc_integrate_nonneg_grid)
  then show "(if True then n2_integrate SNR (np_linspace 6 50 300 ! i)
      else n2_standalone SNR (np_linspace 6 50 300 ! i)) \<noteq> None"
    by (simp add: n2_integrate_spec)
qed

lemma standalone_returns: "\<exists>r. compute_costs C f1 f2 f3 SNR False alpha = Inr r"
  by (rule compute_costs_returns) (simp add: n2_standalone_spec)

lemma powr_less_anti:
  fixes x a b :: real
  assumes "0 < x" and "x < 1" and "a < b"
  shows "x powr b < x powr a"
proof -
  from assms have "ln x < 0" by simp
  with assms have "b * ln x < a * ln x" by (simp add: mult_less_cancel_right)
  with assms show ?thesis by (simp add: powr_def)
qed


section \<open>The claims\<close>

text \<open>
  Claim C1. In the integrated regime (\<^verbatim>\<open>integrate\<close> true), at every sampled
  diameter the returned antenna count is
  \<open>(- b + sqrt (b\<^sup>2 - 4 * a * c)) / (2 * a)\<close> for the coefficients
  \<open>a = A_new\<^sup>2\<close>, \<open>b = 2 * 50 * A_old * A_new - A_new\<^sup>2\<close> and
  \<open>c = (1 - gain\<^sup>2 * 0.7\<^sup>2) * (50 * 49) * A_old\<^sup>2\<close> of the specification, and it
  is a root of \<open>a * n\<^sup>2 + b * n + c = 0\<close>.
\<close>
theorem integrate_antenna_count:
  assumes ok: "compute_costs C f1 f2 f3 SNR True alpha = Inr r" and i: "i < 300"
  shows "na r ! i = Some (spec_n_integrated SNR (D r ! i))
       \<and> spec_a (D r ! i) * (spec_n_integrated SNR (D r ! i))\<^sup>2
           + spec_b (D r ! i) * spec_n_integrated SNR (D r ! i) + spec_c SNR = 0"
proof -
  from compute_costs_Inr [OF ok i] obtain n where
    n: "n2_integrate SNR (np_linspace 6 50 300 ! i) = Some n"
    and Dr: "D r = np_linspace 6 50 300" and na: "na r ! i = Some n"
    by auto
  from n have disc: "0 \<le> disc_integrate SNR (D r ! i)"
    and eq: "n = spec_n_integrated SNR (D r ! i)"
    by (simp_all add: n2_integrate_spec Dr split: if_splits)
  from grid_bounds [OF i] have "D r ! i \<noteq> 0" by (simp add: Dr)
  from spec_n_integrated_root [OF this disc] na eq show ?thesis by simp
qed

theorem integrate_antenna_count_witness:
  "\<exists>r. compute_costs 50000000 5000000 250000 6000 5 True 2.7 = Inr r
     \<and> na r ! 0 = Some (spec_n_integrated 5 (D r ! 0))
     \<and> spec_a (D r ! 0) * (spec_n_integrated 5 (D r ! 0))\<^sup>2
           + spec_b (D r ! 0) * spec_n_integrated 5 (D r ! 0) + spec_c 5 = 0"
proof -
  have "(1::real) \<le> 5\<^sup>2" by simp
  from integrate_returns [OF this] obtain r where
    r: "compute_costs 50000000 5000000 250000 6000 5 True 2.7 = Inr r" by blast
  have "(0::nat) < 300" by simp
  from integrate_antenna_count [OF r this] r show ?thesis by blast
qed

text \<open>
  Claim C2. In the standalone regime (\<^verbatim>\<open>integrate\<close> false), at every sampled
  diameter the returned antenna count is \<open>(1 + sqrt (1 + 4 * c)) / 2\<close> for the
  \<open>c\<close> of the specification; it is a root of \<open>n\<^sup>2 - n - c = 0\<close> and it is
  positive.
\<close>
theorem standalone_antenna_count:
  assumes ok: "compute_costs C f1 f2 f3 SNR False alpha = Inr r" and i: "i < 300"
  shows "na r ! i = Some (spec_n_standalone SNR (D r ! i))
       \<and> (spec_n_standalone SNR (D r ! i))\<^sup>2 - spec_n_standalone SNR (D r ! i)
           - spec_c_standalone SNR (D r ! i) = 0
       \<and> 0 < spec_n_standalone SNR (D r ! i)"
proof -
  from compute_costs_Inr [OF ok i] obtain n where
    n: "n2_standalone SNR (np_linspace 6 50 300 ! i) = Some n"
    and Dr: "D r = np_linspace 6 50 300" and na: "na r ! i = Some n"
    by auto
  from n have "n = spec_n_standalone SNR (D r ! i)" by (simp add: n2_standalone_spec Dr)
  with na spec_n_standalone_root [of SNR "D r ! i"] spec_n_standalone_ge_1 [of SNR "D r ! i"]
  show ?thesis by simp
qed

theorem standalone_antenna_count_witness:
  "\<exists>r. compute_costs 50000000 5000000 250000 6000 5 False 2.7 = Inr r
     \<and> na r ! 0 = Some (spec_n_standalone 5 (D r ! 0))
     \<and> (spec_n_standalone 5 (D r ! 0))\<^sup>2 - spec_n_standalone 5 (D r ! 0)
           - spec_c_standalone 5 (D r ! 0) = 0
     \<and> 0 < spec_n_standalone 5 (D r ! 0)"
proof -
  from standalone_returns obtain r where
    r: "compute_costs 50000000 5000000 250000 6000 5 False 2.7 = Inr r" by blast
  have "(0::nat) < 300" by simp
  from standalone_antenna_count [OF r this] r show ?thesis by blast
qed

text \<open>
  Claim C3. In both regimes and for every parameter set, whenever the
  evaluator returns, at every sampled diameter the total cost is the base
  cost plus the antenna, receiver and correlator costs there.
\<close>
theorem total_cost_additive:
  assumes ok: "compute_costs C f1 f2 f3 SNR integ alpha = Inr r" and i: "i < 300"
  shows "\<exists>t a v c. total_cost r ! i = Some t \<and> cost_ant r ! i = Some a
           \<and> cost_rcv r ! i = Some v \<and> cost_corr r ! i = Some c
           \<and> t = C + a + v + c"
  using compute_costs_Inr [OF ok i] by auto

theorem total_cost_additive_witness:
  "\<exists>r. compute_costs 50000000 5000000 250000 6000 5 True 2.7 = Inr r
     \<and> (\<exists>t a v c. total_cost r ! 0 = Some t \<and> cost_ant r ! 0 = Some a
           \<and> cost_rcv r ! 0 = Some v \<and> cost_corr r ! 0 = Some c
           \<and> t = 50000000 + a + v + c)"
proof -
  have "(1::real) \<le> 5\<^sup>2" by simp
  from integrate_returns [OF this] obtain r where
    r: "compute_costs 50000000 5000000 250000 6000 5 True 2.7 = Inr r" by blast
  have "(0::nat) < 300" by simp
  from total_cost_additive [OF r this] r show ?thesis by blast
qed

text \<open>
  Claim C4. The correlator cost is \<open>f3 * (n + 50)\<^sup>2\<close> in the integrated regime
  and \<open>f3 * n\<^sup>2\<close> in the standalone one; the antenna cost
  \<open>f1 * n * (D / 12) powr alpha\<close> and the receiver cost \<open>f2 * n\<close> have the
  same formula in both.
\<close>
theorem cost_terms_by_regime:
  assumes ok: "compute_costs C f1 f2 f3 SNR integ alpha = Inr r" and i: "i < 300"
  shows "\<exists>n. na r ! i = Some n
           \<and> cost_corr r ! i = Some (if integ then f3 * (n + 50)\<^sup>2 else f3 * n\<^sup>2)
           \<and> cost_ant r ! i = Some (f1 * n * (D r ! i / 12) powr alpha)
           \<and> cost_rcv r ! i = Some (f2 * n)"
  using compute_costs_Inr [OF ok i] by (auto simp: D_12m_def n_12m_def)

theorem cost_terms_by_regime_witness:
  "(\<exists>r. compute_costs 50000000 5000000 250000 6000 5 True 2.7 = Inr r
     \<and> (\<exists>n. na r ! 0 = Some n
           \<and> cost_corr r ! 0 = Some (6000 * (n + 50)\<^sup>2)
           \<and> cost_ant r ! 0 = Some (5000000 * n * (D r ! 0 / 12) powr 2.7)
           \<and> cost_rcv r ! 0 = Some (250000 * n)))
   \<and> (\<exists>r. compute_costs 50000000 5000000 250000 6000 5 False 2.7 = Inr r
     \<and> (\<exists>n. na r ! 0 = Some n
           \<and> cost_corr r ! 0 = Some (6000 * n\<^sup>2)
           \<and> cost_ant r ! 0 = Some (5000000 * n * (D r ! 0 / 12) powr 2.7)
           \<and> cost_rcv r ! 0 = Some (250000 * n)))"
proof -
  have "(1::real) \<le> 5\<^sup>2" by simp
  from integrate_returns [OF this] obtain r where
    r: "compute_costs 50000000 5000000 250000 6000 5 True 2.7 = Inr r" by blast
  from standalone_returns obtain r' where
    r': "compute_costs 50000000 5000000 250000 6000 5 False 2.7 = Inr r'" by blast
  have i: "(0::nat) < 300" by simp
  from cost_terms_by_regime [OF r i] cost_terms_by_regime [OF r' i] r r'
  show ?thesis by simp
qed

text \<open>
  Claim C5. If the argument of the square root is negative at one sampled
  diameter or more, the evaluator does not return arrays holding NaN: it
  fails. The NaN of \<^verbatim>\<open>np.sqrt\<close> reaches \<^verbatim>\<open>total_cost\<close>, \<^verbatim>\<open>np.argmin\<close> selects
  its index, and \<^verbatim>\<open>int(np.round(n2[min_index]))\<close> on line 69 raises ValueError.
  In the standalone regime the argument is never negative.
\<close>
theorem negative_discriminant_fails:
  assumes i: "i < 300"
    and neg: "(if integ then disc_integrate SNR (np_linspace 6 50 300 ! i)
               else disc_standalone SNR (np_linspace 6 50 300 ! i)) < 0"
  shows "compute_costs C f1 f2 f3 SNR integ alpha = Inl ValueError"
proof (rule compute_costs_Inl [OF i])
  show "(if integ then n2_integrate SNR (np_linspace 6 50 300 ! i)
         else n2_standalone SNR (np_linspace 6 50 300 ! i)) = None"
  proof (cases integ)
    case True
    with neg show ?thesis by (simp add: n2_integrate_spec)
  next
    case False
    with neg spec_c_standalone_nonneg [of SNR "np_linspace 6 50 300 ! i"]
    show ?thesis by (simp add: disc_standalone_spec)
  qed
qed

theorem negative_discriminant_fails_witness:
  "(299::nat) < 300 \<and> disc_integrate 0 (np_linspace 6 50 300 ! 299) < 0
     \<and> compute_costs 50000000 5000000 250000 6000 0 True 2.7 = Inl ValueError"
proof -
  have i: "(299::nat) < 300" by simp
  have g: "np_linspace 6 50 300 ! 299 = 50" by (simp add: grid_nth)
  have neg: "(if True then disc_integrate 0 (np_linspace 6 50 300 ! 299)
               else disc_standalone 0 (np_linspace 6 50 300 ! 299)) < 0"
    using disc_integrate_negative by (simp add: g)
  from negative_discriminant_fails [OF i neg] neg show ?thesis by simp
qed

text \<open>
  Claim C6, as stated: for a valid parameter set (positive cost coefficients,
  gain at least 1, exponent at least 0) that raises no error, the antenna
  count is at least 0 at every sampled diameter, in both regimes. It fails in
  the integrated regime at gain 1: the evaluator returns, and the count at the
  first sampled diameter is negative.
\<close>
theorem antenna_count_negative_counterexample:
  "\<exists>r n. compute_costs 50000000 5000000 250000 6000 1 True 2.7 = Inr r
     \<and> na r ! 0 = Some n \<and> n < 0"
proof -
  have "(1::real) \<le> 1\<^sup>2" by simp
  from integrate_returns [OF this] obtain r where
    r: "compute_costs 50000000 5000000 250000 6000 1 True 2.7 = Inr r" by blast
  have i: "(0::nat) < 300" by simp
  from compute_costs_Inr [OF r i] obtain n where
    n: "n2_integrate 1 (np_linspace 6 50 300 ! 0) = Some n" and na: "na r ! 0 = Some n"
    by auto
  from n have disc: "0 \<le> disc_integrate 1 (np_linspace 6 50 300 ! 0)"
    and eq: "n = spec_n_integrated 1 (np_linspace 6 50 300 ! 0)"
    by (simp_all add: n2_integrate_spec split: if_splits)
  from spec_n_integrated_sign [OF grid_bounds [OF i] disc]
  have "\<not> 0 \<le> n" by (simp add: eq spec_c_nonpos_iff)
  with r na show ?thesis by simp
qed

text \<open>
  Claim C6, amended. For a gain of at least 1, whenever the evaluator returns:
  in the standalone regime the antenna count is at least 0 at every sampled
  diameter; in the integrated regime it is at least 0 exactly when the gain is
  at least \<open>10 / 7\<close>, that is when \<open>gain\<^sup>2 * 0.7\<^sup>2\<close> is at least 1.
\<close>
theorem antenna_count_sign:
  assumes ok: "compute_costs C f1 f2 f3 SNR integ alpha = Inr r" and i: "i < 300"
    and s: "1 \<le> SNR"
  shows "\<exists>n. na r ! i = Some n \<and> (0 \<le> n \<longleftrightarrow> (integ \<longrightarrow> 10 / 7 \<le> SNR))"
proof (cases integ)
  case True
  from compute_costs_Inr [OF ok i] True obtain n where
    n: "n2_integrate SNR (np_linspace 6 50 300 ! i) = Some n" and na: "na r ! i = Some n"
    by auto
  from n have disc: "0 \<le> disc_integrate SNR (np_linspace 6 50 300 ! i)"
    and eq: "n = spec_n_integrated SNR (np_linspace 6 50 300 ! i)"
    by (simp_all add: n2_integrate_spec split: if_splits)
  from s have "0 \<le> SNR" by simp
  from spec_n_integrated_sign [OF grid_bounds [OF i] disc] gain_threshold [OF this]
  have "0 \<le> n \<longleftrightarrow> 10 / 7 \<le> SNR" by (simp add: eq spec_c_nonpos_iff)
  with na True show ?thesis by simp
next
  case False
  from compute_costs_Inr [OF ok i] False obtain n where
    n: "n2_standalone SNR (np_linspace 6 50 300 ! i) = Some n" and na: "na r ! i = Some n"
    by auto
  from n spec_n_standalone_ge_1 [of SNR "np_linspace 6 50 300 ! i"]
  have "0 \<le> n" by (simp add: n2_standalone_spec)
  with na False show ?thesis by simp
qed

theorem antenna_count_sign_witness:
  "\<exists>r. compute_costs 50000000 5000000 250000 6000 5 True 2.7 = Inr r
     \<and> (1::real) \<le> 5 \<and> (\<exists>n. na r ! 0 = Some n \<and> 0 \<le> n)"
proof -
  have "(1::real) \<le> 5\<^sup>2" by simp
  from integrate_returns [OF this] obtain r where
    r: "compute_costs 50000000 5000000 250000 6000 5 True 2.7 = Inr r" by blast
  have i: "(0::nat) < 300" and s: "(1::real) \<le> 5" by simp_all
  from antenna_count_sign [OF r i s] r show ?thesis by auto
qed

text \<open>
  Claim C7, as stated: in the standalone regime with gain 1, the antenna count
  at diameter 12 and the correlator cost there are about 0. They are not: the
  count exceeds 35, and at the default correlator factor 6000 the correlator
  cost exceeds 7350000.
\<close>
theorem standalone_unit_gain_counterexample:
  "\<exists>n. n2_standalone 1 12 = Some n \<and> 35 < n
     \<and> cost_corr_standalone 6000 (n2_standalone 1 12) = Some (6000 * n\<^sup>2)
     \<and> 7350000 < 6000 * n\<^sup>2"
proof (intro exI conjI)
  show "n2_standalone 1 12 = Some ((1 + sqrt 4803) / 2)"
    by (simp add: n2_standalone_spec spec_n_standalone_1_12)
  show "35 < (1 + sqrt 4803) / 2" using sqrt_4803_bounds by simp
  show "cost_corr_standalone 6000 (n2_standalone 1 12) = Some (6000 * ((1 + sqrt 4803) / 2)\<^sup>2)"
    by (simp add: n2_standalone_spec spec_n_standalone_1_12 cost_corr_standalone_def)
  show "7350000 < 6000 * ((1 + sqrt 4803) / 2)\<^sup>2"
    using spec_n_standalone_1_12_square by simp
qed

text \<open>
  Claim C7, amended. In the standalone regime with gain 1, the antenna count at
  diameter 12 is \<open>(1 + sqrt 4803) / 2\<close>, strictly between 35 and 36, and the
  correlator cost there is the correlator factor times the square of that
  count, a square above 1225.
\<close>
theorem standalone_unit_gain:
  "n2_standalone 1 12 = Some ((1 + sqrt 4803) / 2)
     \<and> 35 < (1 + sqrt 4803) / 2 \<and> (1 + sqrt 4803) / 2 < 36
     \<and> cost_corr_standalone f3 (n2_standalone 1 12) = Some (f3 * ((1 + sqrt 4803) / 2)\<^sup>2)
     \<and> 1225 < ((1 + sqrt 4803) / 2)\<^sup>2"
  using sqrt_4803_bounds spec_n_standalone_1_12_square
  by (simp add: n2_standalone_spec spec_n_standalone_1_12 cost_corr_standalone_def)

text \<open>
  Claim C8. With every other parameter fixed, a positive antenna cost factor
  and a positive antenna count, a larger scaling exponent gives a strictly
  larger antenna cost at every sampled diameter above 12 and a strictly smaller
  one at every sampled diameter below 12, in both regimes. The antenna count
  and the diameters do not depend on the exponent.
\<close>
theorem antenna_cost_monotone_in_exponent:
  assumes r1: "compute_costs C f1 f2 f3 SNR integ alpha1 = Inr r1"
    and r2: "compute_costs C f1 f2 f3 SNR integ alpha2 = Inr r2"
    and i: "i < 300" and lt: "alpha1 < alpha2" and f1: "0 < f1"
    and n: "na r1 ! i = Some n" and pos: "0 < n"
  shows "\<exists>a1 a2. cost_ant r1 ! i = Some a1 \<and> cost_ant r2 ! i = Some a2
           \<and> D r2 = D r1 \<and> na r2 ! i = Some n
           \<and> (12 < D r1 ! i \<longrightarrow> a1 < a2) \<and> (D r1 ! i < 12 \<longrightarrow> a2 < a1)"
proof -
  define d where "d = np_linspace 6 50 300 ! i"
  define e where "e = (if integ then n2_integrate SNR d else n2_standalone SNR d)"
  from compute_costs_Inr [OF r1 i] obtain m where
    m: "e = Some m" and D1: "D r1 = np_linspace 6 50 300" and nm: "na r1 ! i = Some m"
    and am: "cost_ant r1 ! i = Some (f1 * m * (d / D_12m) powr alpha1)"
    unfolding d_def e_def by blast
  from nm n have mn: "m = n" by simp
  from compute_costs_Inr [OF r2 i] obtain m' where
    m': "e = Some m'" and D2: "D r2 = np_linspace 6 50 300" and nm': "na r2 ! i = Some m'"
    and am': "cost_ant r2 ! i = Some (f1 * m' * (d / D_12m) powr alpha2)"
    unfolding d_def e_def by blast
  from m m' mn have mn': "m' = n" by simp
  from am mn have a1: "cost_ant r1 ! i = Some (f1 * n * (d / D_12m) powr alpha1)" by simp
  from am' mn' have a2: "cost_ant r2 ! i = Some (f1 * n * (d / D_12m) powr alpha2)" by simp
  from nm' mn' have n2: "na r2 ! i = Some n" by simp
  from grid_bounds [OF i] have d0: "0 < d / D_12m" by (simp add: d_def D_12m_def)
  from f1 pos have k: "0 < f1 * n" by simp
  have up: "f1 * n * (d / D_12m) powr alpha1 < f1 * n * (d / D_12m) powr alpha2" if "12 < d"
  proof -
    from that have "1 < d / D_12m" by (simp add: D_12m_def)
    with lt have "(d / D_12m) powr alpha1 < (d / D_12m) powr alpha2" by (rule powr_less_mono)
    with k show ?thesis by (simp add: mult_less_cancel_left_pos)
  qed
  have down: "f1 * n * (d / D_12m) powr alpha2 < f1 * n * (d / D_12m) powr alpha1" if "d < 12"
  proof -
    from that have "d / D_12m < 1" by (simp add: D_12m_def)
    with d0 lt have "(d / D_12m) powr alpha2 < (d / D_12m) powr alpha1"
      by (intro powr_less_anti)
    with k show ?thesis by (simp add: mult_less_cancel_left_pos)
  qed
  from a1 a2 n2 up down show ?thesis by (simp add: D1 D2 d_def)
qed

theorem antenna_cost_monotone_in_exponent_witness:
  "\<exists>r1 r2. compute_costs 50000000 5000000 250000 6000 5 False 2.7 = Inr r1
     \<and> compute_costs 50000000 5000000 250000 6000 5 False 3 = Inr r2
     \<and> (\<exists>n. na r1 ! 0 = Some n \<and> 0 < n) \<and> (\<exists>n. na r1 ! 299 = Some n \<and> 0 < n)
     \<and> D r1 ! 0 < 12 \<and> 12 < D r1 ! 299
     \<and> (\<exists>a1 a2. cost_ant r1 ! 0 = Some a1 \<and> cost_ant r2 ! 0 = Some a2 \<and> a2 < a1)
     \<and> (\<exists>a1 a2. cost_ant r1 ! 299 = Some a1 \<and> cost_ant r2 ! 299 = Some a2 \<and> a1 < a2)"
proof -
  from standalone_returns obtain r1 where
    r1: "compute_costs 50000000 5000000 250000 6000 5 False 2.7 = Inr r1" by blast
  from standalone_returns obtain r2 where
    r2: "compute_costs 50000000 5000000 250000 6000 5 False 3 = Inr r2" by blast
  have i0: "(0::nat) < 300" and i299: "(299::nat) < 300" by simp_all
  have lt: "(2.7::real) < 3" and f1: "(0::real) < 5000000" by simp_all
  from compute_costs_Inr [OF r1 i0] spec_n_standalone_ge_1 [of 5 "np_linspace 6 50 300 ! 0"]
  obtain n0 where n0: "na r1 ! 0 = Some n0" and p0: "0 < n0"
    and d0: "D r1 ! 0 < 12"
    by (auto simp: n2_standalone_spec grid_nth)
  from compute_costs_Inr [OF r1 i299] spec_n_standalone_ge_1 [of 5 "np_linspace 6 50 300 ! 299"]
  obtain n1 where n1: "na r1 ! 299 = Some n1" and p1: "0 < n1"
    and d1: "12 < D r1 ! 299"
    by (auto simp: n2_standalone_spec grid_nth)
  from antenna_cost_monotone_in_exponent [OF r1 r2 i0 lt f1 n0 p0]
    antenna_cost_monotone_in_exponent [OF r1 r2 i299 lt f1 n1 p1]
    r1 r2 n0 p0 n1 p1 d0 d1
  show ?thesis by auto
qed

text \<open>
  Claim C9. Whatever the parameters, the returned diameters are the same grid:
  300 values, the first 6, the last 50, each 44/299 above the one before, so
  strictly increasing.
\<close>
theorem diameters_fixed_grid:
  assumes ok: "compute_costs C f1 f2 f3 SNR integ alpha = Inr r"
  shows "D r = np_linspace 6 50 300 \<and> length (D r) = 300
       \<and> D r ! 0 = 6 \<and> D r ! 299 = 50
       \<and> (\<forall>i<299. D r ! (i + 1) - D r ! i = 44 / 299)
       \<and> sorted_wrt (<) (D r)"
proof -
  have i0: "(0::nat) < 300" by simp
  from compute_costs_Inr [OF ok i0] have Dr: "D r = np_linspace 6 50 300" by auto
  have step: "np_linspace 6 50 300 ! (i + 1) - np_linspace 6 50 300 ! i = 44 / 299"
    if "i < 299" for i
    using that by (simp add: grid_nth field_simps)
  have incr: "np_linspace 6 50 300 ! i < np_linspace 6 50 300 ! j"
    if "i < j" and "j < 300" for i j
    using that by (simp add: grid_nth)
  have "sorted_wrt (<) (np_linspace 6 50 300)"
    unfolding sorted_wrt_iff_nth_less using incr by (simp add: grid_length)
  with step show ?thesis by (simp add: Dr grid_length grid_nth)
qed

theorem diameters_fixed_grid_witness:
  "\<exists>r r'. compute_costs 50000000 5000000 250000 6000 5 True 2.7 = Inr r
     \<and> compute_costs 1 2 3 4 7 False 0 = Inr r'
     \<and> D r = D r' \<and> length (D r) = 300 \<and> D r ! 0 = 6 \<and> D r ! 299 = 50
     \<and> D r ! 1 - D r ! 0 = 44 / 299 \<and> sorted_wrt (<) (D r)"
proof -
  have "(1::real) \<le> 5\<^sup>2" by simp
  from integrate_returns [OF this] obtain r where
    r: "compute_costs 50000000 5000000 250000 6000 5 True 2.7 = Inr r" by blast
  from standalone_returns obtain r' where
    r': "compute_costs 1 2 3 4 7 False 0 = Inr r'" by blast
  from diameters_fixed_grid [OF r] have g: "D r = np_linspace 6 50 300"
    and l: "length (D r) = 300" and h: "D r ! 0 = 6" and t: "D r ! 299 = 50"
    and st: "\<forall>i<299. D r ! (i + 1) - D r ! i = 44 / 299" and so: "sorted_wrt (<) (D r)"
    by blast+
  from st [rule_format, of 0] have s1: "D r ! 1 - D r ! 0 = 44 / 299" by simp
  from diameters_fixed_grid [OF r'] have g': "D r' = np_linspace 6 50 300" by blast
  from g g' have "D r = D r'" by simp
  with r r' l h t s1 so show ?thesis by blast
qed

text \<open>
  Claim C10. In the standalone regime, for all real parameters, the evaluator
  returns (no error is raised); at every sampled diameter the argument
  \<open>1 + 4 * c\<close> of the square root is at least 1 and the antenna count is at
  least 1.
\<close>
theorem standalone_never_fails:
  "\<exists>r. compute_costs C f1 f2 f3 SNR False alpha = Inr r
     \<and> (\<forall>i<300. 1 \<le> disc_standalone SNR (D r ! i)
           \<and> (\<exists>n. na r ! i = Some n \<and> 1 \<le> n))"
proof -
  from standalone_returns obtain r where
    r: "compute_costs C f1 f2 f3 SNR False alpha = Inr r" by blast
  have "1 \<le> disc_standalone SNR (D r ! i) \<and> (\<exists>n. na r ! i = Some n \<and> 1 \<le> n)"
    if i: "i < 300" for i
  proof -
    from compute_costs_Inr [OF r i] obtain n where
      n: "n2_standalone SNR (np_linspace 6 50 300 ! i) = Some n" and na: "na r ! i = Some n"
      by auto
    from n spec_n_standalone_ge_1 [of SNR "np_linspace 6 50 300 ! i"]
    have "1 \<le> n" by (simp add: n2_standalone_spec)
    with na spec_c_standalone_nonneg [of SNR "D r ! i"] show ?thesis
      by (simp add: disc_standalone_spec)
  qed
  with r show ?thesis by blast
qed

theorem standalone_never_fails_witness:
  "\<exists>r. compute_costs 50000000 5000000 250000 6000 5 False 2.7 = Inr r
     \<and> 1 \<le> disc_standalone 5 (D r ! 0) \<and> (\<exists>n. na r ! 0 = Some n \<and> 1 \<le> n)"
proof -
  from standalone_never_fails [of 50000000 5000000 250000 6000 5 "2.7"] obtain r where
    r: "compute_costs 50000000 5000000 250000 6000 5 False 2.7 = Inr r"
    and all: "\<forall>i<300. 1 \<le> disc_standalone 5 (D r ! i) \<and> (\<exists>n. na r ! i = Some n \<and> 1 \<le> n)"
    by blast
  have "(0::nat) < 300" by simp
  with all have "1 \<le> disc_standalone 5 (D r ! 0) \<and> (\<exists>n. na r ! 0 = Some n \<and> 1 \<le> n)"
    by blast
  with r show ?thesis by blast
qed

end
